theory Spec2Isabelle
  imports Main "HOL-Library.Word"
begin

section \<open>JSON documents as Python values\<close>

text \<open>
  Both scripts hand every file to \<^verbatim>\<open>json.load\<close> and keep what it returns: a Python
  \<^verbatim>\<open>dict\<close>, \<^verbatim>\<open>list\<close>, \<^verbatim>\<open>str\<close>, \<^verbatim>\<open>int\<close>, \<^verbatim>\<open>float\<close>, \<^verbatim>\<open>bool\<close> or \<^verbatim>\<open>None\<close>.
  A \<^verbatim>\<open>dict\<close> keeps its keys in insertion order, and that order is the order of the
  members that \<^verbatim>\<open>json.dump\<close> writes, so a dictionary is an association list here.
  A \<^verbatim>\<open>float\<close> is an IEEE double, kept as its 64 bits.
\<close>

datatype json =
    JNull
  | JBool bool
  | JInt int
  | JFloat "64 word"
  | JStr string
  | JList "json list"
  | JDict "(string \<times> json) list"

type_synonym dict = "(string \<times> json) list"

text \<open>\<^verbatim>\<open>d[k] = v\<close>: an existing key keeps its place and gets the new value, a new key goes
  to the end.\<close>

fun dict_set :: "dict \<Rightarrow> string \<Rightarrow> json \<Rightarrow> dict" where
  "dict_set [] k v = [(k, v)]"
| "dict_set ((k', v') # d) k v =
     (if k' = k then (k, v) # d else (k', v') # dict_set d k v)"

text \<open>\<^verbatim>\<open>d.update(other)\<close>: every item of \<^verbatim>\<open>other\<close>, in its order, is assigned into \<^verbatim>\<open>d\<close>.\<close>

definition dict_update :: "dict \<Rightarrow> dict \<Rightarrow> dict" where
  "dict_update d other = foldl (\<lambda>acc (k, v). dict_set acc k v) d other"

text \<open>\<^verbatim>\<open>d.setdefault(k, default)\<close>: the value under \<^verbatim>\<open>k\<close> when there is one; otherwise
  \<^verbatim>\<open>default\<close> is stored under \<^verbatim>\<open>k\<close> and returned. The result is the dictionary after
  the call and the value returned.\<close>

definition setdefault :: "dict \<Rightarrow> string \<Rightarrow> json \<Rightarrow> dict \<times> json" where
  "setdefault d k dflt =
     (case map_of d k of
        Some v \<Rightarrow> (d, v)
      | None \<Rightarrow> (dict_set d k dflt, dflt))"

section \<open>The source directory\<close>

text \<open>
  \<^verbatim>\<open>os.listdir\<close> returns the names of the entries of the directory, in the order the
  file system reports them. An entry is a subdirectory or a file; a file is described by
  what \<^verbatim>\<open>open\<close> followed by \<^verbatim>\<open>json.load\<close> does on it: it returns a value, it raises
  \<^verbatim>\<open>json.JSONDecodeError\<close> with a message, or it raises some other exception
  (\<^verbatim>\<open>PermissionError\<close> at \<^verbatim>\<open>open\<close>, \<^verbatim>\<open>UnicodeDecodeError\<close> while reading).
\<close>

datatype content =
    Json json
  | Malformed string
  | Unreadable string

datatype node = Directory | File content

record entry =
  name :: string
  node :: node

datatype exn =
    JSONDecodeError string
  | IsADirectoryError
  | AttributeError
  | OtherError string

text \<open>\<^verbatim>\<open>with open(file_path, "r", encoding="utf-8") as f: ... json.load(f)\<close>. Opening a
  directory raises \<^verbatim>\<open>IsADirectoryError\<close>.\<close>

fun open_load :: "node \<Rightarrow> exn + json" where
  "open_load Directory = Inl IsADirectoryError"
| "open_load (File (Json v)) = Inr v"
| "open_load (File (Malformed m)) = Inl (JSONDecodeError m)"
| "open_load (File (Unreadable x)) = Inl (OtherError x)"

text \<open>\<^verbatim>\<open>filename.endswith(suffix)\<close>, a comparison of characters.\<close>

definition endswith :: "string \<Rightarrow> string \<Rightarrow> bool" where
  "endswith s suffix =
     (length suffix \<le> length s \<and> drop (length s - length suffix) s = suffix)"

section \<open>What a run leaves behind\<close>

text \<open>
  The lines printed on standard output, by the format string that produced them:
  \<^item> \<^verbatim>\<open>Skipping {filename}, invalid JSON: {e}\<close> (merge.py),
  \<^item> the fixed line \<^verbatim>\<open>Merged all JSON files into merged_output.json\<close> (merge.py),
  \<^item> \<^verbatim>\<open>Error in {filename}: {e}\<close> (merge_json.py),
  \<^item> \<^verbatim>\<open>Merged {len(all_plans)} files into {output_file}\<close> (merge_json.py).
\<close>

datatype line =
    Skipping string string
  | MergedAll
  | ErrorIn string string
  | MergedCount nat

datatype status = Exit0 | Uncaught exn

text \<open>
  The outcome of a run over an existing source directory with a writable destination:
  how the process ended, what it printed, and the document it passed to
  \<^verbatim>\<open>json.dump(..., indent=2)\<close> for the destination file (\<open>None\<close> when the run stopped
  before the write).
\<close>

record outcome =
  status :: status
  stdout :: "line list"
  written :: "json option"

section \<open>merge.py: the Key-Union aggregator\<close>

text \<open>
  \<^verbatim>\<open>merged_data.setdefault("merged_list", []).extend(data)\<close>. Only a \<^verbatim>\<open>list\<close> has
  \<^verbatim>\<open>extend\<close>; on any other value the attribute lookup raises \<^verbatim>\<open>AttributeError\<close>.
  \<^verbatim>\<open>extend\<close> changes the list object in place, and that object is referenced from
  \<^verbatim>\<open>merged_data\<close> under the reserved key and from nowhere else (every \<^verbatim>\<open>json.load\<close>
  builds fresh objects), so the effect is a new value under that key.
\<close>

definition extend_merged_list :: "dict \<Rightarrow> json list \<Rightarrow> exn + dict" where
  "extend_merged_list merged_data data =
     (case setdefault merged_data ''merged_list'' (JList []) of
        (md, JList items) \<Rightarrow> Inr (dict_set md ''merged_list'' (JList (items @ data)))
      | (md, _) \<Rightarrow> Inl AttributeError)"

text \<open>Lines 16 to 20: the two \<^verbatim>\<open>isinstance\<close> branches; any other value falls through.\<close>

fun merge_data :: "dict \<Rightarrow> json \<Rightarrow> exn + dict" where
  "merge_data merged_data (JDict data) = Inr (dict_update merged_data data)"
| "merge_data merged_data (JList data) = extend_merged_list merged_data data"
| "merge_data merged_data _ = Inr merged_data"

text \<open>
  Lines 9 to 22: the loop over the listing, with the accumulator and the lines printed so
  far. \<^verbatim>\<open>JSONDecodeError\<close> is the only exception caught; any other one ends the run, and
  what was printed before stays printed.
\<close>

fun merge_loop ::
  "entry list \<Rightarrow> dict \<Rightarrow> line list \<Rightarrow> (exn \<times> line list) + (dict \<times> line list)" where
  "merge_loop [] merged_data out = Inr (merged_data, out)"
| "merge_loop (e # es) merged_data out =
     (if endswith (name e) ''.json'' then
        (case open_load (node e) of
           Inr data \<Rightarrow>
             (case merge_data merged_data data of
                Inr md \<Rightarrow> merge_loop es md out
              | Inl x \<Rightarrow> Inl (x, out))
         | Inl (JSONDecodeError m) \<Rightarrow> merge_loop es merged_data (out @ [Skipping (name e) m])
         | Inl x \<Rightarrow> Inl (x, out))
      else merge_loop es merged_data out)"

definition key_union :: "entry list \<Rightarrow> outcome" where
  "key_union listing =
     (case merge_loop listing [] [] of
        Inl (x, out) \<Rightarrow> \<lparr>status = Uncaught x, stdout = out, written = None\<rparr>
      | Inr (merged_data, out) \<Rightarrow>
          \<lparr>status = Exit0, stdout = out @ [MergedAll], written = Some (JDict merged_data)\<rparr>)"

section \<open>merge_json.py: the List-Collection aggregator\<close>

fun collect_loop ::
  "entry list \<Rightarrow> json list \<Rightarrow> line list \<Rightarrow> (exn \<times> line list) + (json list \<times> line list)" where
  "collect_loop [] all_plans out = Inr (all_plans, out)"
| "collect_loop (e # es) all_plans out =
     (if endswith (name e) ''.json'' then
        (case open_load (node e) of
           Inr plan_data \<Rightarrow> collect_loop es (all_plans @ [plan_data]) out
         | Inl (JSONDecodeError m) \<Rightarrow> collect_loop es all_plans (out @ [ErrorIn (name e) m])
         | Inl x \<Rightarrow> Inl (x, out))
      else collect_loop es all_plans out)"

definition list_collection :: "entry list \<Rightarrow> outcome" where
  "list_collection listing =
     (case collect_loop listing [] [] of
        Inl (x, out) \<Rightarrow> \<lparr>status = Uncaught x, stdout = out, written = None\<rparr>
      | Inr (all_plans, out) \<Rightarrow>
          \<lparr>status = Exit0, stdout = out @ [MergedCount (length all_plans)],
           written = Some (JList all_plans)\<rparr>)"

section \<open>Vocabulary of the specification\<close>

text \<open>A candidate is an entry whose name passes the test of line 10 (merge.py) and
  line 11 (merge_json.py).\<close>

definition is_candidate :: "entry \<Rightarrow> bool" where
  "is_candidate e = endswith (name e) ''.json''"

text \<open>The message of the parse error, for a file with invalid JSON.\<close>

fun decode_error :: "node \<Rightarrow> string option" where
  "decode_error (File (Malformed m)) = Some m"
| "decode_error _ = None"

text \<open>The entries that are skipped with a diagnostic: candidates with invalid JSON.\<close>

definition is_skipped :: "entry \<Rightarrow> bool" where
  "is_skipped e = (is_candidate e \<and> decode_error (node e) \<noteq> None)"

text \<open>The directory without its files of invalid JSON.\<close>

definition valid_only :: "entry list \<Rightarrow> entry list" where
  "valid_only listing = filter (\<lambda>e. \<not> is_skipped e) listing"

text \<open>One diagnostic line for each candidate with invalid JSON, in listing order, built
  from the file name and the parse error by the format of the script.\<close>

definition diagnostics :: "(string \<Rightarrow> string \<Rightarrow> line) \<Rightarrow> entry list \<Rightarrow> line list" where
  "diagnostics fmt listing =
     concat (map (\<lambda>e. if is_candidate e
                       then (case decode_error (node e) of Some m \<Rightarrow> [fmt (name e) m] | None \<Rightarrow> [])
                       else []) listing)"

fun parsed_value :: "node \<Rightarrow> json option" where
  "parsed_value (File (Json v)) = Some v"
| "parsed_value _ = None"

text \<open>The values of the successfully parsed candidates, in listing order.\<close>

definition parsed_documents :: "entry list \<Rightarrow> json list" where
  "parsed_documents listing =
     concat (map (\<lambda>e. if is_candidate e
                       then (case parsed_value (node e) of Some v \<Rightarrow> [v] | None \<Rightarrow> [])
                       else []) listing)"

text \<open>A top-level value that is neither a mapping nor a sequence.\<close>

fun is_scalar :: "json \<Rightarrow> bool" where
  "is_scalar (JDict _) = False"
| "is_scalar (JList _) = False"
| "is_scalar _ = True"

text \<open>The entries on which opening or reading raises an exception that no handler of
  the scripts catches.\<close>

fun raises_unhandled :: "node \<Rightarrow> bool" where
  "raises_unhandled Directory = True"
| "raises_unhandled (File (Unreadable x)) = True"
| "raises_unhandled (File _) = False"

text \<open>The sequence-shaped documents among the candidates, in listing order.\<close>

definition sequence_documents :: "entry list \<Rightarrow> json list list" where
  "sequence_documents listing =
     concat (map (\<lambda>e. if is_candidate e
                       then (case node e of File (Json (JList xs)) \<Rightarrow> [xs] | _ \<Rightarrow> [])
                       else []) listing)"

text \<open>A mapping-shaped document that has the reserved key among its own keys.\<close>

fun binds_reserved_key :: "node \<Rightarrow> bool" where
  "binds_reserved_key (File (Json (JDict d))) = (map_of d ''merged_list'' \<noteq> None)"
| "binds_reserved_key _ = False"

text \<open>A sequence-shaped value, the only kind on which \<^verbatim>\<open>extend\<close> exists.\<close>

fun is_sequence :: "json \<Rightarrow> bool" where
  "is_sequence (JList _) = True"
| "is_sequence _ = False"

text \<open>The value that \<^verbatim>\<open>update\<close> with the mapping \<open>d\<close> leaves under \<open>k\<close>, if \<open>d\<close> has that
  key: that of the last pair with the key (a parsed object has each key once).\<close>

definition last_binding :: "dict \<Rightarrow> string \<Rightarrow> json option" where
  "last_binding d k = map_of (rev d) k"

text \<open>
  When does a run of merge.py reach its end? Read off the listing alone, entry by entry.
  The flag says that the reserved key holds, at that point, a value that is not a
  sequence. An entry stops the run (\<open>None\<close>) when it is a subdirectory or an unreadable
  file, or a sequence-shaped document met while the flag is up; otherwise the run goes
  on with the new flag: a mapping that has the reserved key sets it by the value it
  binds, a sequence-shaped document leaves a sequence there, and nothing else touches
  the key.
\<close>

fun after_node :: "bool \<Rightarrow> node \<Rightarrow> bool option" where
  "after_node blocked Directory = None"
| "after_node blocked (File (Unreadable x)) = None"
| "after_node blocked (File (Malformed m)) = Some blocked"
| "after_node blocked (File (Json (JDict d))) =
     Some (case last_binding d ''merged_list'' of
             None \<Rightarrow> blocked
           | Some v \<Rightarrow> \<not> is_sequence v)"
| "after_node blocked (File (Json (JList xs))) = (if blocked then None else Some False)"
| "after_node blocked (File (Json v)) = Some blocked"

fun completes_from :: "bool \<Rightarrow> entry list \<Rightarrow> bool" where
  "completes_from blocked [] = True"
| "completes_from blocked (e # es) =
     (if is_candidate e then
        (case after_node blocked (node e) of
           None \<Rightarrow> False
         | Some b \<Rightarrow> completes_from b es)
      else completes_from blocked es)"

definition key_union_completes :: "entry list \<Rightarrow> bool" where
  "key_union_completes listing = completes_from False listing"

text \<open>The flag of an accumulator: its reserved key holds a value that is not a
  sequence.\<close>

definition reserved_blocked :: "dict \<Rightarrow> bool" where
  "reserved_blocked md =
     (case map_of md ''merged_list'' of None \<Rightarrow> False | Some v \<Rightarrow> \<not> is_sequence v)"

text \<open>A document that assigns the key \<open>k\<close> of the accumulator: a mapping that has \<open>k\<close>
  among its keys, or, for the reserved key, a sequence-shaped document.\<close>

fun assigns :: "string \<Rightarrow> node \<Rightarrow> bool" where
  "assigns k (File (Json (JDict d))) = (map_of d k \<noteq> None)"
| "assigns k (File (Json (JList xs))) = (k = ''merged_list'')"
| "assigns k _ = False"

section \<open>Dictionaries\<close>



lemma map_of_dict_set: "map_of (dict_set d k v) k' = (if k' = k then Some v else map_of d k')"
  by (induction d) auto

lemma keys_dict_set: "fst ` set (dict_set d k v) = insert k (fst ` set d)"
proof (induction d)
  case Nil
  show ?case by simp
next
  case (Cons p d)
  obtain k' v' where p: "p = (k', v')" by (cases p)
  show ?case
  proof (cases "k' = k")
    case True
    then show ?thesis using p by simp
  next
    case False
    then show ?thesis using p Cons by (simp add: insert_commute)
  qed
qed

lemma distinct_dict_set: "distinct (map fst d) \<Longrightarrow> distinct (map fst (dict_set d k v))"
proof (induction d)
  case Nil
  show ?case by simp
next
  case (Cons p d)
  obtain k' v' where p: "p = (k', v')" by (cases p)
  show ?case
  proof (cases "k' = k")
    case True
    then show ?thesis using p Cons.prems by simp
  next
    case False
    have "k' \<notin> fst ` set (dict_set d k v)"
      using False p Cons.prems by (simp add: keys_dict_set)
    then show ?thesis using False p Cons by simp
  qed
qed

lemma dict_set_absent: "map_of d k = None \<Longrightarrow> dict_set d k v = d @ [(k, v)]"
  by (induction d) (auto split: if_splits)

lemma map_of_dict_update:
  "map_of (dict_update d other) k =
     (case map_of (rev other) k of None \<Rightarrow> map_of d k | Some v \<Rightarrow> Some v)"
  unfolding dict_update_def
proof (induction other arbitrary: d)
  case Nil
  show ?case by simp
next
  case (Cons p other)
  obtain k' v' where p: "p = (k', v')" by (cases p)
  show ?case using Cons[of "dict_set d k' v'"] p
    by (simp add: map_of_dict_set map_add_def split: option.splits)
qed

lemma distinct_dict_update:
  "distinct (map fst d) \<Longrightarrow> distinct (map fst (dict_update d other))"
  unfolding dict_update_def
  by (induction other arbitrary: d) (auto simp: distinct_dict_set)

lemma map_of_rev_distinct:
  "distinct (map fst xs) \<Longrightarrow> map_of (rev xs) k = map_of xs k"
proof (induction xs)
  case Nil
  show ?case by simp
next
  case (Cons p xs)
  obtain k' v' where p: "p = (k', v')" by (cases p)
  have "k' \<notin> fst ` set (rev xs)" using Cons.prems p by simp
  then have "map_of (rev xs) k' = None" by (simp add: map_of_eq_None_iff)
  then show ?case using Cons p
    by (cases "k = k'") (simp_all add: map_add_def split: option.splits)
qed

section \<open>The loops\<close>

lemma merge_loop_candidates:
  "merge_loop (filter is_candidate listing) md out = merge_loop listing md out"
  by (induction listing arbitrary: md out)
     (auto simp: is_candidate_def split: sum.splits exn.splits)

lemma collect_loop_candidates:
  "collect_loop (filter is_candidate listing) ap out = collect_loop listing ap out"
  by (induction listing arbitrary: ap out)
     (auto simp: is_candidate_def split: sum.splits exn.splits)

lemma merge_loop_append:
  "merge_loop (xs @ ys) md out =
     (case merge_loop xs md out of
        Inl failure \<Rightarrow> Inl failure
      | Inr (md', out') \<Rightarrow> merge_loop ys md' out')"
  by (induction xs arbitrary: md out) (auto split: sum.splits exn.splits)

lemma collect_loop_append:
  "collect_loop (xs @ ys) ap out =
     (case collect_loop xs ap out of
        Inl failure \<Rightarrow> Inl failure
      | Inr (ap', out') \<Rightarrow> collect_loop ys ap' out')"
  by (induction xs arbitrary: ap out) (auto split: sum.splits exn.splits)

lemma merge_loop_valid_only_Inr:
  "merge_loop (valid_only listing) md out = Inr (md', out') \<Longrightarrow>
     out' = out \<and> merge_loop listing md out0 = Inr (md', out0 @ diagnostics Skipping listing)"
proof (induction listing arbitrary: md out out0)
  case Nil
  then show ?case by (simp add: valid_only_def diagnostics_def)
next
  case (Cons e es)
  show ?case
  proof (cases "is_candidate e")
    case False
    then show ?thesis using Cons.IH[of md out out0] Cons.prems
      by (simp add: valid_only_def diagnostics_def is_skipped_def is_candidate_def)
  next
    case True
    show ?thesis
    proof (cases "node e")
      case Directory
      then show ?thesis using True Cons.prems
        by (simp add: valid_only_def is_skipped_def is_candidate_def)
    next
      case (File c)
      show ?thesis
      proof (cases c)
        case (Json v)
        show ?thesis
        proof (cases "merge_data md v")
          case (Inl x)
          then show ?thesis using True File Json Cons.prems
            by (simp add: valid_only_def is_skipped_def is_candidate_def)
        next
          case (Inr md1)
          then show ?thesis
            using True File Json Cons.prems Cons.IH[of md1 out out0]
            by (simp add: valid_only_def is_skipped_def is_candidate_def diagnostics_def)
        qed
      next
        case (Malformed m)
        then show ?thesis
          using True File Cons.prems Cons.IH[of md out "out0 @ [Skipping (name e) m]"]
          by (simp add: valid_only_def is_skipped_def is_candidate_def diagnostics_def)
      next
        case (Unreadable x)
        then show ?thesis using True File Cons.prems
          by (simp add: valid_only_def is_skipped_def is_candidate_def)
      qed
    qed
  qed
qed

lemma collect_loop_result:
  "collect_loop listing ap out = Inr (ap', out') \<Longrightarrow>
     ap' = ap @ parsed_documents listing \<and> out' = out @ diagnostics ErrorIn listing"
proof (induction listing arbitrary: ap out)
  case Nil
  then show ?case by (simp add: parsed_documents_def diagnostics_def)
next
  case (Cons e es)
  show ?case
  proof (cases "is_candidate e")
    case False
    then show ?thesis using Cons.IH[of ap out] Cons.prems
      by (simp add: parsed_documents_def diagnostics_def is_candidate_def)
  next
    case True
    show ?thesis
    proof (cases "node e")
      case Directory
      then show ?thesis using True Cons.prems by (simp add: is_candidate_def)
    next
      case (File c)
      show ?thesis
      proof (cases c)
        case (Json v)
        then show ?thesis using True File Cons.prems Cons.IH[of "ap @ [v]" out]
          by (simp add: parsed_documents_def diagnostics_def is_candidate_def)
      next
        case (Malformed m)
        then show ?thesis
          using True File Cons.prems Cons.IH[of ap "out @ [ErrorIn (name e) m]"]
          by (simp add: parsed_documents_def diagnostics_def is_candidate_def)
      next
        case (Unreadable x)
        then show ?thesis using True File Cons.prems by (simp add: is_candidate_def)
      qed
    qed
  qed
qed

section \<open>Whole runs\<close>

lemma key_union_candidates: "key_union (filter is_candidate listing) = key_union listing"
  by (simp add: key_union_def merge_loop_candidates)

lemma list_collection_candidates:
  "list_collection (filter is_candidate listing) = list_collection listing"
  by (simp add: list_collection_def collect_loop_candidates)

lemma in_candidates: "filter is_candidate listing = es \<Longrightarrow> e \<in> set es \<Longrightarrow> is_candidate e"
proof -
  assume "filter is_candidate listing = es" and "e \<in> set es"
  then have "e \<in> set (filter is_candidate listing)" by simp
  then show "is_candidate e" by simp
qed

lemma extend_merged_list_absent:
  "map_of md ''merged_list'' = None \<Longrightarrow>
     extend_merged_list md xs = Inr (md @ [(''merged_list'', JList xs)])"
proof -
  assume a: "map_of md ''merged_list'' = None"
  have "dict_set (md @ [(''merged_list'', JList [])]) ''merged_list'' (JList xs)
          = md @ [(''merged_list'', JList xs)]"
    using a by (induction md) (auto split: if_splits)
  then show ?thesis using a
    by (simp add: extend_merged_list_def setdefault_def dict_set_absent)
qed

lemma extend_merged_list_present:
  "map_of md ''merged_list'' = Some (JList items) \<Longrightarrow>
     extend_merged_list md xs = Inr (dict_set md ''merged_list'' (JList (items @ xs)))"
  by (simp add: extend_merged_list_def setdefault_def)

lemma collect_loop_completes:
  "(\<exists>r. collect_loop listing ap out = Inr r)
     = (\<not> list_ex (\<lambda>e. is_candidate e \<and> raises_unhandled (node e)) listing)"
proof (induction listing arbitrary: ap out)
  case Nil
  show ?case by simp
next
  case (Cons e es)
  show ?case
  proof (cases "is_candidate e")
    case False
    then show ?thesis using Cons[of ap out] by (simp add: is_candidate_def)
  next
    case True
    show ?thesis
    proof (cases "node e")
      case Directory
      then show ?thesis using True by (simp add: is_candidate_def)
    next
      case (File c)
      show ?thesis
      proof (cases c)
        case (Json v)
        then show ?thesis using True File Cons[of "ap @ [v]" out]
          by (simp add: is_candidate_def)
      next
        case (Malformed m)
        then show ?thesis using True File Cons[of ap "out @ [ErrorIn (name e) m]"]
          by (simp add: is_candidate_def)
      next
        case (Unreadable x)
        then show ?thesis using True File by (simp add: is_candidate_def)
      qed
    qed
  qed
qed

lemma length_diagnostics: "length (diagnostics fmt listing) = length (filter is_skipped listing)"
proof (induction listing)
  case Nil
  show ?case by (simp add: diagnostics_def)
next
  case (Cons e es)
  then show ?case
    by (cases "decode_error (node e)") (auto simp: diagnostics_def is_skipped_def)
qed

lemma map_of_rev_None: "map_of d k = None \<Longrightarrow> map_of (rev d) k = None"
  by (simp add: map_of_eq_None_iff)

lemma reserved_key_invariant:
  assumes "\<not> list_ex (\<lambda>e. is_candidate e \<and> binds_reserved_key (node e)) listing"
    and "map_of md ''merged_list'' = (if ds = [] then None else Some (JList (concat ds)))"
    and "merge_loop listing md out = Inr (md', out')"
  shows "map_of md' ''merged_list'' =
           (if ds @ sequence_documents listing = [] then None
            else Some (JList (concat (ds @ sequence_documents listing))))"
  using assms
proof (induction listing arbitrary: md ds out)
  case Nil
  then show ?case by (simp add: sequence_documents_def)
next
  case (Cons e es)
  show ?case
  proof (cases "is_candidate e")
    case False
    then show ?thesis using Cons.IH[of md ds out] Cons.prems
      by (simp add: sequence_documents_def is_candidate_def)
  next
    case True
    show ?thesis
    proof (cases "node e")
      case Directory
      then show ?thesis using True Cons.prems by (simp add: is_candidate_def)
    next
      case (File c)
      show ?thesis
      proof (cases c)
        case (Json v)
        show ?thesis
        proof (cases v)
          case (JDict d)
          have "map_of d ''merged_list'' = None"
            using Cons.prems(1) True File Json JDict by simp
          then have "map_of (dict_update md d) ''merged_list'' = map_of md ''merged_list''"
            by (simp add: map_of_dict_update map_of_rev_None)
          then show ?thesis
            using Cons.IH[of "dict_update md d" ds out] Cons.prems True File Json JDict
            by (simp add: sequence_documents_def is_candidate_def)
        next
          case (JList xs)
          define md1 where "md1 = dict_set md ''merged_list'' (JList (concat ds @ xs))"
          have ext: "extend_merged_list md xs = Inr md1"
          proof (cases "ds = []")
            case True
            then have "map_of md ''merged_list'' = None" using Cons.prems(2) by simp
            then show ?thesis using True
              by (simp add: md1_def extend_merged_list_absent dict_set_absent)
          next
            case False
            then show ?thesis using Cons.prems(2)
              by (simp add: md1_def extend_merged_list_present)
          qed
          have "map_of md1 ''merged_list'' = Some (JList (concat (ds @ [xs])))"
            by (simp add: md1_def map_of_dict_set)
          then have "map_of md1 ''merged_list'' =
              (if ds @ [xs] = [] then None else Some (JList (concat (ds @ [xs]))))" by simp
          moreover have "merge_loop es md1 out = Inr (md', out')"
            using Cons.prems(3) True File Json JList ext
            by (simp add: is_candidate_def)
          moreover have "\<not> list_ex (\<lambda>e. is_candidate e \<and> binds_reserved_key (node e)) es"
            using Cons.prems(1) by simp
          ultimately have "map_of md' ''merged_list'' =
              (if (ds @ [xs]) @ sequence_documents es = [] then None
               else Some (JList (concat ((ds @ [xs]) @ sequence_documents es))))"
            using Cons.IH[of md1 "ds @ [xs]" out] by blast
          then show ?thesis using True File Json JList
            by (simp add: sequence_documents_def)
        next
          case JNull
          then show ?thesis using Cons.IH[of md ds out] Cons.prems True File Json
            by (simp add: sequence_documents_def is_candidate_def)
        next
          case (JBool b)
          then show ?thesis using Cons.IH[of md ds out] Cons.prems True File Json
            by (simp add: sequence_documents_def is_candidate_def)
        next
          case (JInt i)
          then show ?thesis using Cons.IH[of md ds out] Cons.prems True File Json
            by (simp add: sequence_documents_def is_candidate_def)
        next
          case (JFloat w)
          then show ?thesis using Cons.IH[of md ds out] Cons.prems True File Json
            by (simp add: sequence_documents_def is_candidate_def)
        next
          case (JStr s)
          then show ?thesis using Cons.IH[of md ds out] Cons.prems True File Json
            by (simp add: sequence_documents_def is_candidate_def)
        qed
      next
        case (Malformed m)
        then show ?thesis
          using Cons.IH[of md ds "out @ [Skipping (name e) m]"] Cons.prems True File
          by (simp add: sequence_documents_def is_candidate_def)
      next
        case (Unreadable x)
        then show ?thesis using True File Cons.prems by (simp add: is_candidate_def)
      qed
    qed
  qed
qed

section \<open>When a run of merge.py reaches its end\<close>

lemma extend_merged_list_blocked:
  "reserved_blocked md \<Longrightarrow> extend_merged_list md xs = Inl AttributeError"
  by (cases "map_of md ''merged_list''"; cases "the (map_of md ''merged_list'')")
     (simp_all add: reserved_blocked_def extend_merged_list_def setdefault_def)

lemma extend_merged_list_free:
  assumes "\<not> reserved_blocked md"
  shows "\<exists>md'. extend_merged_list md xs = Inr md' \<and> \<not> reserved_blocked md'
           \<and> (\<forall>k. k \<noteq> ''merged_list'' \<longrightarrow> map_of md' k = map_of md k)"
proof (cases "map_of md ''merged_list''")
  case None
  then have "extend_merged_list md xs = Inr (dict_set md ''merged_list'' (JList xs))"
    by (simp add: extend_merged_list_absent dict_set_absent)
  then show ?thesis by (simp add: reserved_blocked_def map_of_dict_set)
next
  case (Some v)
  then obtain items where "v = JList items"
    using assms by (cases v) (simp_all add: reserved_blocked_def)
  then have "extend_merged_list md xs
      = Inr (dict_set md ''merged_list'' (JList (items @ xs)))"
    using Some by (simp add: extend_merged_list_present)
  then show ?thesis by (simp add: reserved_blocked_def map_of_dict_set)
qed

lemma reserved_blocked_update:
  "reserved_blocked (dict_update md d) =
     (case last_binding d ''merged_list'' of
        None \<Rightarrow> reserved_blocked md
      | Some v \<Rightarrow> \<not> is_sequence v)"
  by (simp add: reserved_blocked_def last_binding_def map_of_dict_update
      split: option.splits)

lemma merge_data_after_node:
  "(case merge_data md v of
      Inl x \<Rightarrow> after_node (reserved_blocked md) (File (Json v)) = None
    | Inr md' \<Rightarrow> after_node (reserved_blocked md) (File (Json v))
                  = Some (reserved_blocked md'))"
proof (cases v)
  case (JDict d)
  then show ?thesis by (simp add: reserved_blocked_update)
next
  case (JList xs)
  show ?thesis
  proof (cases "reserved_blocked md")
    case True
    then show ?thesis using JList by (simp add: extend_merged_list_blocked)
  next
    case False
    from extend_merged_list_free [OF False, of xs]
    obtain md' where "extend_merged_list md xs = Inr md'" "\<not> reserved_blocked md'"
      by blast
    then show ?thesis using JList False by simp
  qed
qed simp_all

lemma merge_loop_completes:
  "(\<exists>r. merge_loop listing md out = Inr r) = completes_from (reserved_blocked md) listing"
proof (induction listing arbitrary: md out)
  case Nil
  show ?case by simp
next
  case (Cons e es)
  show ?case
  proof (cases "is_candidate e")
    case False
    then show ?thesis using Cons[of md out] by (simp add: is_candidate_def)
  next
    case True
    show ?thesis
    proof (cases "node e")
      case Directory
      then show ?thesis using True by (simp add: is_candidate_def)
    next
      case (File c)
      show ?thesis
      proof (cases c)
        case (Json v)
        show ?thesis
        proof (cases "merge_data md v")
          case (Inl x)
          then show ?thesis using True File Json merge_data_after_node[of md v]
            by (simp add: is_candidate_def)
        next
          case (Inr md')
          then show ?thesis
            using True File Json merge_data_after_node[of md v] Cons[of md' out]
            by (simp add: is_candidate_def)
        qed
      next
        case (Malformed m)
        then show ?thesis using True File Cons[of md "out @ [Skipping (name e) m]"]
          by (simp add: is_candidate_def)
      next
        case (Unreadable x)
        then show ?thesis using True File by (simp add: is_candidate_def)
      qed
    qed
  qed
qed

lemma key_union_status:
  "(status (key_union listing) = Exit0) = key_union_completes listing"
proof (cases "merge_loop listing [] []")
  case (Inl failure)
  obtain x out where "failure = (x, out)" by (cases failure)
  then have "status (key_union listing) \<noteq> Exit0"
    using Inl by (simp add: key_union_def)
  moreover have "\<not> key_union_completes listing"
    using merge_loop_completes[of listing "[]" "[]"] Inl
    by (simp add: key_union_completes_def reserved_blocked_def)
  ultimately show ?thesis by simp
next
  case (Inr r)
  obtain md out where "r = (md, out)" by (cases r)
  then have "status (key_union listing) = Exit0"
    using Inr by (simp add: key_union_def)
  moreover have "key_union_completes listing"
    using merge_loop_completes[of listing "[]" "[]"] Inr
    by (simp add: key_union_completes_def reserved_blocked_def)
  ultimately show ?thesis by simp
qed

lemma key_union_written:
  "status (key_union listing) = Exit0 \<Longrightarrow>
     \<exists>md out. merge_loop listing [] [] = Inr (md, out)
       \<and> key_union listing
           = \<lparr>status = Exit0, stdout = out @ [MergedAll], written = Some (JDict md)\<rparr>"
  by (cases "merge_loop listing [] []") (auto simp: key_union_def)

lemma key_union_aborted:
  "status (key_union listing) \<noteq> Exit0 \<Longrightarrow> written (key_union listing) = None"
  by (cases "merge_loop listing [] []") (auto simp: key_union_def)

lemma completes_from_valid_only:
  "completes_from blocked (valid_only listing) = completes_from blocked listing"
proof (induction listing arbitrary: blocked)
  case Nil
  show ?case by (simp add: valid_only_def)
next
  case (Cons e es)
  show ?case
  proof (cases "is_skipped e")
    case True
    then obtain m where "node e = File (Malformed m)" "is_candidate e"
      by (cases "node e" rule: decode_error.cases) (simp_all add: is_skipped_def)
    then show ?thesis using True Cons[of blocked] by (simp add: valid_only_def)
  next
    case False
    then show ?thesis using Cons by (simp add: valid_only_def split: option.splits)
  qed
qed

lemma completes_without_binding:
  "\<not> list_ex (\<lambda>e. is_candidate e \<and> binds_reserved_key (node e)) listing \<Longrightarrow>
     completes_from False listing
       = (\<not> list_ex (\<lambda>e. is_candidate e \<and> raises_unhandled (node e)) listing)"
proof (induction listing)
  case Nil
  show ?case by simp
next
  case (Cons e es)
  show ?case
  proof (cases "is_candidate e")
    case False
    then show ?thesis using Cons by simp
  next
    case True
    show ?thesis
    proof (cases "node e")
      case Directory
      then show ?thesis using True by simp
    next
      case (File c)
      show ?thesis
      proof (cases c)
        case (Json v)
        show ?thesis
        proof (cases v)
          case (JDict d)
          then have "map_of d ''merged_list'' = None"
            using Cons.prems True File Json by simp
          then have "last_binding d ''merged_list'' = None"
            by (simp add: last_binding_def map_of_rev_None)
          then show ?thesis using JDict True File Json Cons by simp
        qed (use True File Json Cons in simp_all)
      qed (use True File Cons in simp_all)
    qed
  qed
qed

lemma merge_data_keeps_key:
  assumes "\<not> assigns k (File (Json v))" and "merge_data md v = Inr md'"
  shows "map_of md' k = map_of md k"
proof (cases v)
  case (JDict d)
  then have "map_of (rev d) k = None" using assms(1) by (simp add: map_of_rev_None)
  then show ?thesis using JDict assms(2) by (auto simp: map_of_dict_update)
next
  case (JList xs)
  then have k: "k \<noteq> ''merged_list''" using assms(1) by simp
  show ?thesis
  proof (cases "reserved_blocked md")
    case True
    then show ?thesis using JList assms(2) by (simp add: extend_merged_list_blocked)
  next
    case False
    from extend_merged_list_free [OF False, of xs] show ?thesis
      using JList assms(2) k by auto
  qed
qed (use assms(2) in auto)

lemma merge_loop_keeps_key:
  assumes "\<not> list_ex (\<lambda>e. is_candidate e \<and> assigns k (node e)) listing"
    and "merge_loop listing md out = Inr (md', out')"
  shows "map_of md' k = map_of md k"
  using assms
proof (induction listing arbitrary: md out)
  case Nil
  then show ?case by simp
next
  case (Cons e es)
  show ?case
  proof (cases "is_candidate e")
    case False
    then show ?thesis using Cons.IH[of md out] Cons.prems by (simp add: is_candidate_def)
  next
    case True
    show ?thesis
    proof (cases "node e")
      case Directory
      then show ?thesis using True Cons.prems by (simp add: is_candidate_def)
    next
      case (File c)
      show ?thesis
      proof (cases c)
        case (Json v)
        show ?thesis
        proof (cases "merge_data md v")
          case (Inl x)
          then show ?thesis using True File Json Cons.prems by (simp add: is_candidate_def)
        next
          case (Inr md1)
          have "\<not> assigns k (File (Json v))" using Cons.prems(1) True File Json by simp
          then have "map_of md1 k = map_of md k" using Inr by (rule merge_data_keeps_key)
          moreover have "map_of md' k = map_of md1 k"
            using Cons.IH[of md1 out] Cons.prems True File Json Inr
            by (simp add: is_candidate_def)
          ultimately show ?thesis by simp
        qed
      next
        case (Malformed m)
        then show ?thesis
          using Cons.IH[of md "out @ [Skipping (name e) m]"] Cons.prems True File
          by (simp add: is_candidate_def)
      next
        case (Unreadable x)
        then show ?thesis using True File Cons.prems by (simp add: is_candidate_def)
      qed
    qed
  qed
qed

lemma merge_loop_append_Inr:
  "merge_loop (xs @ ys) md out = Inr r \<Longrightarrow>
     \<exists>md1 out1. merge_loop xs md out = Inr (md1, out1) \<and> merge_loop ys md1 out1 = Inr r"
  by (auto simp: merge_loop_append split: sum.splits)

lemma no_binding_take:
  "\<not> list_ex (\<lambda>e. is_candidate e \<and> binds_reserved_key (node e)) listing \<Longrightarrow>
   \<not> list_ex (\<lambda>e. is_candidate e \<and> binds_reserved_key (node e)) (take n listing)"
  by (auto simp: list_ex_iff dest: in_set_takeD)

section \<open>Key-Union: overwrite on collision, concatenation of sequences\<close>

text \<open>
  Claim C1 (Key-Union overwrite law) does not hold as stated: what the output holds
  under \<open>k\<close> is what the last assignment to \<open>k\<close> left, and a file processed after the two
  mappings can assign \<open>k\<close> again. With \<^verbatim>\<open>c1.json = {"merged_list": [9]}\<close>,
  \<^verbatim>\<open>c2.json = {"merged_list": [8]}\<close> and then \<^verbatim>\<open>a.json = [1]\<close>, the two mappings bind the
  key \<^verbatim>\<open>"merged_list"\<close> to different values, the one processed last binds it to \<^verbatim>\<open>[8]\<close>,
  and the output holds \<^verbatim>\<open>[8, 1]\<close>.
\<close>

theorem key_union_overwrite_law_counterexample:
  "key_union
     [\<lparr>name = ''c1.json'', node = File (Json (JDict [(''merged_list'', JList [JInt 9])]))\<rparr>,
      \<lparr>name = ''c2.json'', node = File (Json (JDict [(''merged_list'', JList [JInt 8])]))\<rparr>,
      \<lparr>name = ''a.json'', node = File (Json (JList [JInt 1]))\<rparr>]
     = \<lparr>status = Exit0, stdout = [MergedAll],
        written = Some (JDict [(''merged_list'', JList [JInt 8, JInt 1])])\<rparr>
   \<and> JList [JInt 8, JInt 1] \<noteq> JList [JInt 8]"
  by (simp add: key_union_def endswith_def dict_update_def extend_merged_list_def
      setdefault_def)

text \<open>
  Claim C1 as amended. In any source directory, let two mapping-shaped \<^verbatim>\<open>.json\<close> files
  \<open>e1\<close> and \<open>e2\<close> both contain the key \<open>k\<close>, with different values, \<open>e2\<close> being processed
  after \<open>e1\<close>, and let no \<^verbatim>\<open>.json\<close> file processed after \<open>e2\<close> assign \<open>k\<close> (none is a mapping
  that contains \<open>k\<close>, and, when \<open>k\<close> is the reserved key, none is sequence-shaped).
  Whatever else the directory holds, the run ends normally exactly when the listing
  lets it (no candidate raises an unhandled exception and no sequence-shaped file is met
  while the reserved key holds a non-sequence), and then the mapping written binds \<open>k\<close>
  to the value of \<open>e2\<close>, taken whole: the two values are never merged into each other.
  A parsed JSON object is a Python dictionary, so the keys of \<open>d2\<close> are distinct.
\<close>

theorem key_union_overwrite_law:
  assumes "listing = pre @ e1 # mid @ e2 # post"
    and "is_candidate e1" and "node e1 = File (Json (JDict d1))"
    and "map_of d1 k = Some v1"
    and "is_candidate e2" and "node e2 = File (Json (JDict d2))"
    and "distinct (map fst d2)" and "map_of d2 k = Some v2"
    and "v1 \<noteq> v2"
    and "\<not> list_ex (\<lambda>e. is_candidate e \<and> assigns k (node e)) post"
  shows "(status (key_union listing) = Exit0) = key_union_completes listing
       \<and> (status (key_union listing) = Exit0 \<longrightarrow>
            (\<exists>md. written (key_union listing) = Some (JDict md) \<and> map_of md k = Some v2))"
proof -
  have "\<exists>md. written (key_union listing) = Some (JDict md) \<and> map_of md k = Some v2"
    if ok: "status (key_union listing) = Exit0"
  proof -
    from key_union_written [OF ok] obtain md out
      where run: "merge_loop listing [] [] = Inr (md, out)"
        and w: "written (key_union listing) = Some (JDict md)"
      by auto
    have "merge_loop ((pre @ e1 # mid) @ (e2 # post)) [] [] = Inr (md, out)"
      using run assms(1) by simp
    from merge_loop_append_Inr [OF this]
    obtain md1 out1 where rest: "merge_loop (e2 # post) md1 out1 = Inr (md, out)"
      by blast
    then have tail: "merge_loop post (dict_update md1 d2) out1 = Inr (md, out)"
      using assms(5,6) by (simp add: is_candidate_def)
    have "map_of md k = map_of (dict_update md1 d2) k"
      using assms(10) tail by (rule merge_loop_keeps_key)
    also have "\<dots> = Some v2"
      using assms(7,8) by (simp add: map_of_dict_update map_of_rev_distinct)
    finally show ?thesis using w by simp
  qed
  then show ?thesis by (simp add: key_union_status)
qed

text \<open>
  The law at \<^verbatim>\<open>a.json = {"k": {"x": 1}, "only_a": true}\<close>, \<^verbatim>\<open>z.json = {"z": 3}\<close>, a file
  \<^verbatim>\<open>bad.json\<close> of invalid JSON, \<^verbatim>\<open>b.json = {"k": {"y": 2}}\<close> and \<^verbatim>\<open>s.json = [1]\<close>: the
  output binds \<open>k\<close> to \<^verbatim>\<open>{"y": 2}\<close>, not to \<^verbatim>\<open>{"x": 1, "y": 2}\<close>.
\<close>

theorem key_union_overwrite_law_witness:
  "key_union_completes
     ([] @ \<lparr>name = ''a.json'',
          node = File (Json (JDict [(''k'', JDict [(''x'', JInt 1)]), (''only_a'', JBool True)]))\<rparr>
      # [\<lparr>name = ''z.json'', node = File (Json (JDict [(''z'', JInt 3)]))\<rparr>,
         \<lparr>name = ''bad.json'', node = File (Malformed ''Expecting value'')\<rparr>]
      @ \<lparr>name = ''b.json'', node = File (Json (JDict [(''k'', JDict [(''y'', JInt 2)])]))\<rparr>
      # [\<lparr>name = ''s.json'', node = File (Json (JList [JInt 1]))\<rparr>])
   \<and> JDict [(''x'', JInt 1)] \<noteq> JDict [(''y'', JInt 2)]
   \<and> \<not> list_ex (\<lambda>e. is_candidate e \<and> assigns ''k'' (node e))
         [\<lparr>name = ''s.json'', node = File (Json (JList [JInt 1]))\<rparr>]
   \<and> (\<exists>md. written (key_union
     ([] @ \<lparr>name = ''a.json'',
          node = File (Json (JDict [(''k'', JDict [(''x'', JInt 1)]), (''only_a'', JBool True)]))\<rparr>
      # [\<lparr>name = ''z.json'', node = File (Json (JDict [(''z'', JInt 3)]))\<rparr>,
         \<lparr>name = ''bad.json'', node = File (Malformed ''Expecting value'')\<rparr>]
      @ \<lparr>name = ''b.json'', node = File (Json (JDict [(''k'', JDict [(''y'', JInt 2)])]))\<rparr>
      # [\<lparr>name = ''s.json'', node = File (Json (JList [JInt 1]))\<rparr>])) = Some (JDict md)
        \<and> map_of md ''k'' = Some (JDict [(''y'', JInt 2)]))"
proof -
  let ?e1 = "\<lparr>name = ''a.json'',
          node = File (Json (JDict [(''k'', JDict [(''x'', JInt 1)]), (''only_a'', JBool True)]))\<rparr>"
  let ?mid = "[\<lparr>name = ''z.json'', node = File (Json (JDict [(''z'', JInt 3)]))\<rparr>,
         \<lparr>name = ''bad.json'', node = File (Malformed ''Expecting value'')\<rparr>]"
  let ?e2 = "\<lparr>name = ''b.json'', node = File (Json (JDict [(''k'', JDict [(''y'', JInt 2)])]))\<rparr>"
  let ?post = "[\<lparr>name = ''s.json'', node = File (Json (JList [JInt 1]))\<rparr>]"
  let ?L = "[] @ ?e1 # ?mid @ ?e2 # ?post"
  have c1: "is_candidate ?e1" and c2: "is_candidate ?e2"
    by (simp_all add: is_candidate_def endswith_def)
  have n1: "node ?e1 = File (Json (JDict [(''k'', JDict [(''x'', JInt 1)]), (''only_a'', JBool True)]))"
    and n2: "node ?e2 = File (Json (JDict [(''k'', JDict [(''y'', JInt 2)])]))"
    by simp_all
  have m1: "map_of [(''k'', JDict [(''x'', JInt 1)]), (''only_a'', JBool True)] ''k''
      = Some (JDict [(''x'', JInt 1)])"
    and m2: "map_of [(''k'', JDict [(''y'', JInt 2)])] ''k'' = Some (JDict [(''y'', JInt 2)])"
    and d2: "distinct (map fst [(''k'', JDict [(''y'', JInt 2)])])"
    and ne: "JDict [(''x'', JInt 1)] \<noteq> JDict [(''y'', JInt 2)]"
    by simp_all
  have p: "\<not> list_ex (\<lambda>e. is_candidate e \<and> assigns ''k'' (node e)) ?post"
    by simp
  have c: "key_union_completes ?L"
    by (simp add: key_union_completes_def is_candidate_def endswith_def last_binding_def)
  note t = key_union_overwrite_law [OF refl c1 n1 m1 c2 n2 d2 m2 ne p]
  from t c have "status (key_union ?L) = Exit0" by (simp only: simp_thms)
  with t have "\<exists>md. written (key_union ?L) = Some (JDict md)
      \<and> map_of md ''k'' = Some (JDict [(''y'', JInt 2)])"
    by blast
  then show ?thesis using c ne p by blast
qed

text \<open>
  Claim C2 (list-concatenation law) does not hold as stated: a mapping-shaped file that
  contains the key \<^verbatim>\<open>"merged_list"\<close> replaces what was collected. With \<^verbatim>\<open>a.json = [1, 2]\<close>,
  \<^verbatim>\<open>m.json = {"merged_list": []}\<close> and \<^verbatim>\<open>b.json = [3]\<close>, the two sequence-shaped files
  have 2 and 1 elements and the reserved key of the output holds one element.
\<close>

theorem list_concatenation_law_counterexample:
  "key_union
     [\<lparr>name = ''a.json'', node = File (Json (JList [JInt 1, JInt 2]))\<rparr>,
      \<lparr>name = ''m.json'', node = File (Json (JDict [(''merged_list'', JList [])]))\<rparr>,
      \<lparr>name = ''b.json'', node = File (Json (JList [JInt 3]))\<rparr>]
     = \<lparr>status = Exit0, stdout = [MergedAll],
        written = Some (JDict [(''merged_list'', JList [JInt 3])])\<rparr>"
  by (simp add: key_union_def endswith_def dict_update_def extend_merged_list_def
      setdefault_def)

text \<open>
  Claim C2 as amended. In any source directory whose sequence-shaped \<^verbatim>\<open>.json\<close> files are
  two, with the elements \<open>xs\<close> and then \<open>ys\<close> in processing order, and in which no
  mapping-shaped \<^verbatim>\<open>.json\<close> file contains the key \<^verbatim>\<open>"merged_list"\<close>: the run ends normally
  exactly when no candidate raises an unhandled exception, and then the mapping written
  binds the reserved key to \<open>xs\<close> followed by \<open>ys\<close>, a sequence of
  \<open>length xs + length ys\<close> elements. At every point of the run before the first
  sequence-shaped file, the accumulator has no reserved key, and \<^verbatim>\<open>setdefault\<close> creates
  it there, after the keys present, with the empty sequence.
\<close>

theorem list_concatenation_law:
  assumes "\<not> list_ex (\<lambda>e. is_candidate e \<and> binds_reserved_key (node e)) listing"
    and "sequence_documents listing = [xs, ys]"
  shows "(status (key_union listing) = Exit0)
           = (\<not> list_ex (\<lambda>e. is_candidate e \<and> raises_unhandled (node e)) listing)
       \<and> (status (key_union listing) = Exit0 \<longrightarrow>
            (\<exists>md zs. written (key_union listing) = Some (JDict md)
               \<and> map_of md ''merged_list'' = Some (JList zs)
               \<and> zs = xs @ ys \<and> length zs = length xs + length ys))
       \<and> (merge_loop (take n listing) [] [] = Inr (md0, out0)
            \<and> sequence_documents (take n listing) = [] \<longrightarrow>
              map_of md0 ''merged_list'' = None
            \<and> setdefault md0 ''merged_list'' (JList [])
                = (md0 @ [(''merged_list'', JList [])], JList []))"
proof -
  have start: "map_of [] ''merged_list'' = (if [] = ([] :: json list list) then None
      else Some (JList (concat ([] :: json list list))))"
    by simp
  have a: "(status (key_union listing) = Exit0)
           = (\<not> list_ex (\<lambda>e. is_candidate e \<and> raises_unhandled (node e)) listing)"
    using completes_without_binding [OF assms(1)]
    by (simp add: key_union_status key_union_completes_def)
  have b: "\<exists>md zs. written (key_union listing) = Some (JDict md)
               \<and> map_of md ''merged_list'' = Some (JList zs)
               \<and> zs = xs @ ys \<and> length zs = length xs + length ys"
    if ok: "status (key_union listing) = Exit0"
  proof -
    from key_union_written [OF ok] obtain md out
      where run: "merge_loop listing [] [] = Inr (md, out)"
        and w: "written (key_union listing) = Some (JDict md)"
      by auto
    from reserved_key_invariant [OF assms(1) start run]
    have "map_of md ''merged_list'' = Some (JList (xs @ ys))"
      by (simp add: assms(2))
    then show ?thesis using w by simp
  qed
  have c: "map_of md0 ''merged_list'' = None
            \<and> setdefault md0 ''merged_list'' (JList [])
                = (md0 @ [(''merged_list'', JList [])], JList [])"
    if run: "merge_loop (take n listing) [] [] = Inr (md0, out0)"
      and none: "sequence_documents (take n listing) = []"
  proof -
    from reserved_key_invariant [OF no_binding_take [OF assms(1)] start run]
    have "map_of md0 ''merged_list'' = None" by (simp add: none)
    then show ?thesis by (simp add: setdefault_def dict_set_absent)
  qed
  from a b c show ?thesis by blast
qed

text \<open>
  The law at \<^verbatim>\<open>z.json = {"z": 0}\<close>, \<^verbatim>\<open>a.json = [1, 2]\<close>, a subdirectory \<^verbatim>\<open>notes\<close> and
  \<^verbatim>\<open>b.json = ["x", null, 3]\<close>; the reserved key is created after the first entry, on the
  accumulator \<^verbatim>\<open>{"z": 0}\<close>.
\<close>

theorem list_concatenation_law_witness:
  "\<not> list_ex (\<lambda>e. is_candidate e \<and> binds_reserved_key (node e))
       [\<lparr>name = ''z.json'', node = File (Json (JDict [(''z'', JInt 0)]))\<rparr>,
        \<lparr>name = ''a.json'', node = File (Json (JList [JInt 1, JInt 2]))\<rparr>,
        \<lparr>name = ''notes'', node = Directory\<rparr>,
        \<lparr>name = ''b.json'', node = File (Json (JList [JStr ''x'', JNull, JInt 3]))\<rparr>]
   \<and> sequence_documents
       [\<lparr>name = ''z.json'', node = File (Json (JDict [(''z'', JInt 0)]))\<rparr>,
        \<lparr>name = ''a.json'', node = File (Json (JList [JInt 1, JInt 2]))\<rparr>,
        \<lparr>name = ''notes'', node = Directory\<rparr>,
        \<lparr>name = ''b.json'', node = File (Json (JList [JStr ''x'', JNull, JInt 3]))\<rparr>]
       = [[JInt 1, JInt 2], [JStr ''x'', JNull, JInt 3]]
   \<and> (\<exists>md zs. written (key_union
       [\<lparr>name = ''z.json'', node = File (Json (JDict [(''z'', JInt 0)]))\<rparr>,
        \<lparr>name = ''a.json'', node = File (Json (JList [JInt 1, JInt 2]))\<rparr>,
        \<lparr>name = ''notes'', node = Directory\<rparr>,
        \<lparr>name = ''b.json'', node = File (Json (JList [JStr ''x'', JNull, JInt 3]))\<rparr>])
         = Some (JDict md)
       \<and> map_of md ''merged_list'' = Some (JList zs)
       \<and> zs = [JInt 1, JInt 2, JStr ''x'', JNull, JInt 3] \<and> length zs = 5)
   \<and> setdefault [(''z'', JInt 0)] ''merged_list'' (JList [])
       = ([(''z'', JInt 0), (''merged_list'', JList [])], JList [])"
proof -
  let ?L = "[\<lparr>name = ''z.json'', node = File (Json (JDict [(''z'', JInt 0)]))\<rparr>,
        \<lparr>name = ''a.json'', node = File (Json (JList [JInt 1, JInt 2]))\<rparr>,
        \<lparr>name = ''notes'', node = Directory\<rparr>,
        \<lparr>name = ''b.json'', node = File (Json (JList [JStr ''x'', JNull, JInt 3]))\<rparr>]"
  have h1: "\<not> list_ex (\<lambda>e. is_candidate e \<and> binds_reserved_key (node e)) ?L"
    by simp
  have h2: "sequence_documents ?L = [[JInt 1, JInt 2], [JStr ''x'', JNull, JInt 3]]"
    by (simp add: sequence_documents_def is_candidate_def endswith_def)
  have u: "\<not> list_ex (\<lambda>e. is_candidate e \<and> raises_unhandled (node e)) ?L"
    by (simp add: is_candidate_def endswith_def)
  have r: "merge_loop (take 1 ?L) [] [] = Inr ([(''z'', JInt 0)], [])"
    by (simp add: endswith_def dict_update_def)
  have s: "sequence_documents (take 1 ?L) = []"
    by (simp add: sequence_documents_def is_candidate_def endswith_def)
  note t = list_concatenation_law [OF h1 h2, of 1 "[(''z'', JInt 0)]" "[]"]
  from t u have ok: "status (key_union ?L) = Exit0" by blast
  with t have "\<exists>md zs. written (key_union ?L) = Some (JDict md)
       \<and> map_of md ''merged_list'' = Some (JList zs)
       \<and> zs = [JInt 1, JInt 2] @ [JStr ''x'', JNull, JInt 3]
       \<and> length zs = length [JInt 1, JInt 2] + length [JStr ''x'', JNull, JInt 3]"
    by blast
  then have w: "\<exists>md zs. written (key_union ?L) = Some (JDict md)
       \<and> map_of md ''merged_list'' = Some (JList zs)
       \<and> zs = [JInt 1, JInt 2, JStr ''x'', JNull, JInt 3] \<and> length zs = 5"
    by simp
  from t r s have "setdefault [(''z'', JInt 0)] ''merged_list'' (JList [])
       = ([(''z'', JInt 0)] @ [(''merged_list'', JList [])], JList [])"
    by blast
  then have sd: "setdefault [(''z'', JInt 0)] ''merged_list'' (JList [])
       = ([(''z'', JInt 0), (''merged_list'', JList [])], JList [])"
    by simp
  show ?thesis using h1 h2 w sd by blast
qed

section \<open>Malformed files, counts and scalars\<close>

text \<open>
  Claim C3 (skip on malformed JSON) does not hold as stated: a directory of valid and
  invalid \<^verbatim>\<open>.json\<close> files need not end normally. With \<^verbatim>\<open>b.json = {"merged_list": "x"}\<close>,
  \<^verbatim>\<open>a.json = [1]\<close> and a file \<^verbatim>\<open>bad.json\<close> with the content \<^verbatim>\<open>{invalid\<close>, the run stops at
  \<^verbatim>\<open>a.json\<close> with \<^verbatim>\<open>AttributeError\<close>: nothing is printed, nothing is written.
\<close>

theorem skip_on_malformed_json_counterexample:
  "key_union
     [\<lparr>name = ''b.json'', node = File (Json (JDict [(''merged_list'', JStr ''x'')]))\<rparr>,
      \<lparr>name = ''a.json'', node = File (Json (JList [JInt 1]))\<rparr>,
      \<lparr>name = ''bad.json'', node = File (Malformed ''Expecting property name'')\<rparr>]
     = \<lparr>status = Uncaught AttributeError, stdout = [], written = None\<rparr>"
  by (simp add: key_union_def endswith_def dict_update_def extend_merged_list_def
      setdefault_def)

text \<open>
  Claim C3 as amended. For every source directory, the files with invalid JSON have no
  part in how the run ends or in what it writes: the run ends normally exactly when the
  listing without them lets it (no candidate raises an unhandled exception, and no
  sequence-shaped file is met while the reserved key holds a non-sequence); the document
  written is the one that the run over the directory without the invalid files writes,
  so each invalid file leaves the accumulator as it was and the files after it are
  still processed; and when the run ends normally, standard output is one \<^verbatim>\<open>Skipping\<close>
  line for each invalid file, in listing order, with the name of the file and the parse
  error, followed by the completion line.
\<close>

theorem skip_on_malformed_json:
  "(status (key_union listing) = Exit0) = key_union_completes (valid_only listing)
   \<and> written (key_union listing) = written (key_union (valid_only listing))
   \<and> (status (key_union listing) = Exit0 \<longrightarrow>
        stdout (key_union listing) = diagnostics Skipping listing @ [MergedAll])
   \<and> length (diagnostics Skipping listing) = length (filter is_skipped listing)"
proof -
  have same: "key_union_completes (valid_only listing) = key_union_completes listing"
    by (simp add: key_union_completes_def completes_from_valid_only)
  show ?thesis
  proof (cases "status (key_union (valid_only listing)) = Exit0")
    case True
    from key_union_written [OF True] obtain md out
      where run: "merge_loop (valid_only listing) [] [] = Inr (md, out)"
        and k: "key_union (valid_only listing)
            = \<lparr>status = Exit0, stdout = out @ [MergedAll], written = Some (JDict md)\<rparr>"
      by auto
    have "merge_loop listing [] [] = Inr (md, diagnostics Skipping listing)"
      using merge_loop_valid_only_Inr [OF run, of "[]"] by simp
    then have "key_union listing
        = \<lparr>status = Exit0, stdout = diagnostics Skipping listing @ [MergedAll],
           written = Some (JDict md)\<rparr>"
      by (simp add: key_union_def)
    then show ?thesis
      using k same key_union_status [of listing] by (simp add: length_diagnostics)
  next
    case False
    then have a: "\<not> key_union_completes (valid_only listing)"
      by (simp add: key_union_status)
    then have "status (key_union listing) \<noteq> Exit0"
      using same by (simp add: key_union_status)
    then show ?thesis
      using a False key_union_aborted [of listing] key_union_aborted [of "valid_only listing"]
      by (simp add: length_diagnostics)
  qed
qed

text \<open>The property at three valid files and one file with the content \<^verbatim>\<open>{invalid\<close>.\<close>

theorem skip_on_malformed_json_witness:
  "key_union_completes (valid_only
     [\<lparr>name = ''a.json'', node = File (Json (JDict [(''a'', JInt 1)]))\<rparr>,
      \<lparr>name = ''b.json'', node = File (Json (JList [JInt 1]))\<rparr>,
      \<lparr>name = ''bad.json'', node = File (Malformed ''Expecting property name'')\<rparr>,
      \<lparr>name = ''c.json'', node = File (Json (JDict [(''c'', JInt 3)]))\<rparr>])
   \<and> key_union
     [\<lparr>name = ''a.json'', node = File (Json (JDict [(''a'', JInt 1)]))\<rparr>,
      \<lparr>name = ''b.json'', node = File (Json (JList [JInt 1]))\<rparr>,
      \<lparr>name = ''bad.json'', node = File (Malformed ''Expecting property name'')\<rparr>,
      \<lparr>name = ''c.json'', node = File (Json (JDict [(''c'', JInt 3)]))\<rparr>]
     = \<lparr>status = Exit0,
        stdout = [Skipping ''bad.json'' ''Expecting property name'', MergedAll],
        written = Some (JDict [(''a'', JInt 1), (''merged_list'', JList [JInt 1]), (''c'', JInt 3)])\<rparr>"
proof -
  let ?L = "[\<lparr>name = ''a.json'', node = File (Json (JDict [(''a'', JInt 1)]))\<rparr>,
      \<lparr>name = ''b.json'', node = File (Json (JList [JInt 1]))\<rparr>,
      \<lparr>name = ''bad.json'', node = File (Malformed ''Expecting property name'')\<rparr>,
      \<lparr>name = ''c.json'', node = File (Json (JDict [(''c'', JInt 3)]))\<rparr>]"
  let ?V = "[\<lparr>name = ''a.json'', node = File (Json (JDict [(''a'', JInt 1)]))\<rparr>,
      \<lparr>name = ''b.json'', node = File (Json (JList [JInt 1]))\<rparr>,
      \<lparr>name = ''c.json'', node = File (Json (JDict [(''c'', JInt 3)]))\<rparr>]"
  have v: "valid_only ?L = ?V"
    by (simp add: valid_only_def is_skipped_def is_candidate_def endswith_def)
  have k: "written (key_union ?V)
      = Some (JDict [(''a'', JInt 1), (''merged_list'', JList [JInt 1]), (''c'', JInt 3)])"
    by (simp add: key_union_def endswith_def dict_update_def extend_merged_list_def
        setdefault_def)
  have c: "key_union_completes (valid_only ?L)"
    unfolding v
    by (simp add: key_union_completes_def is_candidate_def endswith_def last_binding_def)
  have d: "diagnostics Skipping ?L = [Skipping ''bad.json'' ''Expecting property name'']"
    by (simp add: diagnostics_def is_candidate_def endswith_def)
  note t = skip_on_malformed_json [of ?L]
  from t c have s: "status (key_union ?L) = Exit0" by blast
  with t have o: "stdout (key_union ?L) = diagnostics Skipping ?L @ [MergedAll]" by blast
  from t have w: "written (key_union ?L) = written (key_union (valid_only ?L))" by blast
  have "key_union ?L
     = \<lparr>status = Exit0,
        stdout = [Skipping ''bad.json'' ''Expecting property name'', MergedAll],
        written = Some (JDict [(''a'', JInt 1), (''merged_list'', JList [JInt 1]), (''c'', JInt 3)])\<rparr>"
    using s o w unfolding v k d by (cases "key_union ?L") simp
  then show ?thesis using c by blast
qed

text \<open>
  Claim C4 (count accuracy of the List-Collection aggregator). The run ends normally
  exactly when no candidate raises an exception other than \<^verbatim>\<open>JSONDecodeError\<close>, and
  then the completion line reports the number of successfully parsed \<^verbatim>\<open>.json\<close> files,
  the array written has that many elements, one whole parsed value for each such file
  in listing order, and the lines before the completion line are the diagnostics of the
  files that failed to parse.
\<close>

theorem count_accuracy:
  "(status (list_collection listing) = Exit0
      \<longleftrightarrow> \<not> list_ex (\<lambda>e. is_candidate e \<and> raises_unhandled (node e)) listing)
   \<and> (status (list_collection listing) = Exit0 \<longrightarrow>
        list_collection listing =
          \<lparr>status = Exit0,
           stdout = diagnostics ErrorIn listing @ [MergedCount (length (parsed_documents listing))],
           written = Some (JList (parsed_documents listing))\<rparr>)"
proof (cases "collect_loop listing [] []")
  case (Inl failure)
  obtain x out where "failure = (x, out)" by (cases failure)
  then have "status (list_collection listing) \<noteq> Exit0"
    using Inl by (simp add: list_collection_def)
  moreover have "list_ex (\<lambda>e. is_candidate e \<and> raises_unhandled (node e)) listing"
    using collect_loop_completes[of listing "[]" "[]"] Inl by simp
  ultimately show ?thesis by simp
next
  case (Inr r)
  obtain ap out where r: "r = (ap, out)" by (cases r)
  have "ap = parsed_documents listing" "out = diagnostics ErrorIn listing"
    using collect_loop_result[of listing "[]" "[]" ap out] Inr r by simp_all
  then have "list_collection listing =
          \<lparr>status = Exit0,
           stdout = diagnostics ErrorIn listing @ [MergedCount (length (parsed_documents listing))],
           written = Some (JList (parsed_documents listing))\<rparr>"
    using Inr r by (simp add: list_collection_def)
  moreover have "\<not> list_ex (\<lambda>e. is_candidate e \<and> raises_unhandled (node e)) listing"
    using collect_loop_completes[of listing "[]" "[]"] Inr by simp
  ultimately show ?thesis by simp
qed

text \<open>
  Five \<^verbatim>\<open>.json\<close> files of which one fails to parse, and one more entry that is not a
  candidate: six entries are scanned, the count reported is 4.
\<close>

theorem count_accuracy_witness:
  "list_collection
     [\<lparr>name = ''p1.json'', node = File (Json (JDict [(''plan'', JStr ''A'')]))\<rparr>,
      \<lparr>name = ''p2.json'', node = File (Json (JList [JInt 2]))\<rparr>,
      \<lparr>name = ''p3.json'', node = File (Malformed ''Expecting value'')\<rparr>,
      \<lparr>name = ''readme.md'', node = File (Unreadable ''UnicodeDecodeError'')\<rparr>,
      \<lparr>name = ''p4.json'', node = File (Json (JStr ''four''))\<rparr>,
      \<lparr>name = ''p5.json'', node = File (Json JNull)\<rparr>]
   = \<lparr>status = Exit0,
      stdout = [ErrorIn ''p3.json'' ''Expecting value'', MergedCount 4],
      written = Some (JList [JDict [(''plan'', JStr ''A'')], JList [JInt 2], JStr ''four'', JNull])\<rparr>"
proof -
  let ?L = "[\<lparr>name = ''p1.json'', node = File (Json (JDict [(''plan'', JStr ''A'')]))\<rparr>,
      \<lparr>name = ''p2.json'', node = File (Json (JList [JInt 2]))\<rparr>,
      \<lparr>name = ''p3.json'', node = File (Malformed ''Expecting value'')\<rparr>,
      \<lparr>name = ''readme.md'', node = File (Unreadable ''UnicodeDecodeError'')\<rparr>,
      \<lparr>name = ''p4.json'', node = File (Json (JStr ''four''))\<rparr>,
      \<lparr>name = ''p5.json'', node = File (Json JNull)\<rparr>]"
  have n: "\<not> list_ex (\<lambda>e. is_candidate e \<and> raises_unhandled (node e)) ?L"
    by (simp add: is_candidate_def endswith_def)
  have p: "parsed_documents ?L
      = [JDict [(''plan'', JStr ''A'')], JList [JInt 2], JStr ''four'', JNull]"
    by (simp add: parsed_documents_def is_candidate_def endswith_def)
  have d: "diagnostics ErrorIn ?L = [ErrorIn ''p3.json'' ''Expecting value'']"
    by (simp add: diagnostics_def is_candidate_def endswith_def)
  show ?thesis using count_accuracy [of ?L] n by (simp add: p d eval_nat_numeral)
qed

text \<open>
  Claim C7 (scalar top-level values are dropped without a word). A candidate file whose
  parsed value is a string, a number, a boolean or null changes nothing: the run over
  the directory gives the outcome (exit status, standard output, document written) of
  the run over the directory without that file, whatever comes before and after it.
\<close>

theorem scalar_silently_dropped:
  assumes "is_candidate e" and "node e = File (Json v)" and "is_scalar v"
  shows "key_union (pre @ e # post) = key_union (pre @ post)"
proof -
  have "merge_data md v = Inr md" for md
    using assms(3) by (cases v) simp_all
  then have "merge_loop (e # post) md out = merge_loop post md out" for md out
    using assms(1,2) by (simp add: is_candidate_def)
  then have "merge_loop (pre @ e # post) [] [] = merge_loop (pre @ post) [] []"
    by (simp add: merge_loop_append split: sum.splits)
  then show ?thesis by (simp add: key_union_def)
qed

text \<open>The property at \<^verbatim>\<open>a.json = {"a": 1}\<close>, \<^verbatim>\<open>s.json = 3.0\<close> (the double
  \<open>0x4008000000000000\<close>) and \<^verbatim>\<open>b.json = [true]\<close>.\<close>

theorem scalar_silently_dropped_witness:
  "is_candidate \<lparr>name = ''s.json'', node = File (Json (JFloat 0x4008000000000000))\<rparr>
   \<and> is_scalar (JFloat 0x4008000000000000)
   \<and> key_union
        ([\<lparr>name = ''a.json'', node = File (Json (JDict [(''a'', JInt 1)]))\<rparr>]
         @ \<lparr>name = ''s.json'', node = File (Json (JFloat 0x4008000000000000))\<rparr>
         # [\<lparr>name = ''b.json'', node = File (Json (JList [JBool True]))\<rparr>])
     = \<lparr>status = Exit0, stdout = [MergedAll],
        written = Some (JDict [(''a'', JInt 1), (''merged_list'', JList [JBool True])])\<rparr>"
proof -
  have c: "is_candidate \<lparr>name = ''s.json'', node = File (Json (JFloat 0x4008000000000000))\<rparr>"
    by (simp add: is_candidate_def endswith_def)
  have k: "key_union
        ([\<lparr>name = ''a.json'', node = File (Json (JDict [(''a'', JInt 1)]))\<rparr>]
         @ [\<lparr>name = ''b.json'', node = File (Json (JList [JBool True]))\<rparr>])
     = \<lparr>status = Exit0, stdout = [MergedAll],
        written = Some (JDict [(''a'', JInt 1), (''merged_list'', JList [JBool True])])\<rparr>"
    by (simp add: key_union_def endswith_def dict_update_def extend_merged_list_def
        setdefault_def)
  show ?thesis
    using scalar_silently_dropped
      [of "\<lparr>name = ''s.json'', node = File (Json (JFloat 0x4008000000000000))\<rparr>"
          "JFloat 0x4008000000000000"
          "[\<lparr>name = ''a.json'', node = File (Json (JDict [(''a'', JInt 1)]))\<rparr>]"
          "[\<lparr>name = ''b.json'', node = File (Json (JList [JBool True]))\<rparr>]", OF c]
      c k
    by simp
qed

section \<open>Which entries are read\<close>

text \<open>
  Claim C8 (extension filtering). An entry named \<^verbatim>\<open>notes.txt\<close> and an entry named
  \<^verbatim>\<open>plan.JSON\<close> are never read by either script: whatever the entry is (valid JSON,
  invalid JSON, an unreadable file, a subdirectory) and wherever it stands in the
  listing, the outcome of the run is that of the run over the directory without it, so
  nothing of its content reaches the output.
\<close>

theorem extension_filtering:
  "key_union (pre @ \<lparr>name = ''notes.txt'', node = n\<rparr> # post) = key_union (pre @ post)
   \<and> key_union (pre @ \<lparr>name = ''plan.JSON'', node = n\<rparr> # post) = key_union (pre @ post)
   \<and> list_collection (pre @ \<lparr>name = ''notes.txt'', node = n\<rparr> # post) = list_collection (pre @ post)
   \<and> list_collection (pre @ \<lparr>name = ''plan.JSON'', node = n\<rparr> # post) = list_collection (pre @ post)"
proof -
  have a: "\<not> is_candidate \<lparr>name = ''notes.txt'', node = n\<rparr>"
    by (simp add: is_candidate_def endswith_def)
  have b: "\<not> is_candidate \<lparr>name = ''plan.JSON'', node = n\<rparr>"
    by (simp add: is_candidate_def endswith_def)
  have "filter is_candidate (pre @ e # post) = filter is_candidate (pre @ post)"
    if "\<not> is_candidate e" for e using that by simp
  then have "key_union (pre @ e # post) = key_union (pre @ post)
      \<and> list_collection (pre @ e # post) = list_collection (pre @ post)"
    if "\<not> is_candidate e" for e
    using that key_union_candidates[of "pre @ e # post"] key_union_candidates[of "pre @ post"]
      list_collection_candidates[of "pre @ e # post"] list_collection_candidates[of "pre @ post"]
    by simp
  from this[OF a] this[OF b] show ?thesis by simp
qed

text \<open>The two names beside \<^verbatim>\<open>a.json = {"a": 1}\<close>: the file \<^verbatim>\<open>notes.txt\<close> holds
  \<^verbatim>\<open>{"secret": 1}\<close>, and the output of both scripts holds only the content of \<^verbatim>\<open>a.json\<close>.\<close>

theorem extension_filtering_witness:
  "key_union ([\<lparr>name = ''a.json'', node = File (Json (JDict [(''a'', JInt 1)]))\<rparr>]
      @ \<lparr>name = ''notes.txt'', node = File (Json (JDict [(''secret'', JInt 1)]))\<rparr> # [])
     = \<lparr>status = Exit0, stdout = [MergedAll], written = Some (JDict [(''a'', JInt 1)])\<rparr>
   \<and> list_collection ([\<lparr>name = ''a.json'', node = File (Json (JDict [(''a'', JInt 1)]))\<rparr>]
      @ \<lparr>name = ''plan.JSON'', node = File (Json (JDict [(''secret'', JInt 1)]))\<rparr> # [])
     = \<lparr>status = Exit0, stdout = [MergedCount 1],
        written = Some (JList [JDict [(''a'', JInt 1)]])\<rparr>"
proof -
  have k: "key_union ([\<lparr>name = ''a.json'', node = File (Json (JDict [(''a'', JInt 1)]))\<rparr>] @ [])
     = \<lparr>status = Exit0, stdout = [MergedAll], written = Some (JDict [(''a'', JInt 1)])\<rparr>"
    by (simp add: key_union_def endswith_def dict_update_def)
  have l: "list_collection ([\<lparr>name = ''a.json'', node = File (Json (JDict [(''a'', JInt 1)]))\<rparr>] @ [])
     = \<lparr>status = Exit0, stdout = [MergedCount 1],
        written = Some (JList [JDict [(''a'', JInt 1)]])\<rparr>"
    by (simp add: list_collection_def endswith_def)
  show ?thesis
    using extension_filtering
      [of "[\<lparr>name = ''a.json'', node = File (Json (JDict [(''a'', JInt 1)]))\<rparr>]"
          "File (Json (JDict [(''secret'', JInt 1)]))" "[]"]
    by (simp only: k l simp_thms)
qed






section \<open>The reserved key\<close>

text \<open>
  Claim C5 (reserved-key invariant) does not hold as stated: \<^verbatim>\<open>merged_data.update(data)\<close>
  assigns every key of a mapping-shaped file, the reserved one included. After
  \<^verbatim>\<open>a.json = [1]\<close> and \<^verbatim>\<open>b.json = {"merged_list": "x"}\<close> the reserved key holds the
  string \<^verbatim>\<open>"x"\<close>: the sequence collected so far is gone, and the value is no sequence.
  After \<^verbatim>\<open>c.json = {"merged_list": [9]}\<close> and \<^verbatim>\<open>a.json = [1]\<close> it holds \<^verbatim>\<open>[9, 1]\<close>, whose
  first element comes from a mapping-shaped document.
  With the two files of the first directory in the other order, \<^verbatim>\<open>extend\<close> is looked up
  on the string and the run stops with \<^verbatim>\<open>AttributeError\<close>.
\<close>

theorem reserved_key_replaced_counterexample:
  "key_union
     [\<lparr>name = ''a.json'', node = File (Json (JList [JInt 1]))\<rparr>,
      \<lparr>name = ''b.json'', node = File (Json (JDict [(''merged_list'', JStr ''x'')]))\<rparr>]
     = \<lparr>status = Exit0, stdout = [MergedAll],
        written = Some (JDict [(''merged_list'', JStr ''x'')])\<rparr>
   \<and> key_union
     [\<lparr>name = ''c.json'', node = File (Json (JDict [(''merged_list'', JList [JInt 9])]))\<rparr>,
      \<lparr>name = ''a.json'', node = File (Json (JList [JInt 1]))\<rparr>]
     = \<lparr>status = Exit0, stdout = [MergedAll],
        written = Some (JDict [(''merged_list'', JList [JInt 9, JInt 1])])\<rparr>
   \<and> key_union
     [\<lparr>name = ''b.json'', node = File (Json (JDict [(''merged_list'', JStr ''x'')]))\<rparr>,
      \<lparr>name = ''a.json'', node = File (Json (JList [JInt 1]))\<rparr>]
     = \<lparr>status = Uncaught AttributeError, stdout = [], written = None\<rparr>"
  by (simp add: key_union_def endswith_def dict_update_def extend_merged_list_def
      setdefault_def)

text \<open>
  Claim C5 as amended. A mapping-shaped input that contains the key \<^verbatim>\<open>"merged_list"\<close>
  assigns its own value to that key of the accumulator, as to any other key. As long as
  no mapping-shaped \<^verbatim>\<open>.json\<close> file of the directory contains that key, the invariant
  holds at every point of the run: after any number \<open>n\<close> of directory entries, the
  reserved key is absent from the accumulator if no sequence-shaped document has been
  processed yet, and otherwise it holds the ordered sequence of the elements of the
  sequence-shaped documents processed so far, in processing order.
\<close>

theorem reserved_key_collects_sequences:
  assumes "\<not> list_ex (\<lambda>e. is_candidate e \<and> binds_reserved_key (node e)) listing"
    and "merge_loop (take n listing) [] [] = Inr (md, out)"
    and "distinct (map fst d)" and "map_of d ''merged_list'' = Some v"
  shows "map_of md ''merged_list'' =
           (if sequence_documents (take n listing) = [] then None
            else Some (JList (concat (sequence_documents (take n listing)))))
       \<and> merge_data acc (JDict d) = Inr (dict_update acc d)
       \<and> map_of (dict_update acc d) ''merged_list'' = Some v"
proof -
  have "map_of [] ''merged_list'' = (if [] = ([] :: json list list) then None
      else Some (JList (concat ([] :: json list list))))"
    by simp
  from reserved_key_invariant [OF no_binding_take [OF assms(1)] this assms(2)]
  have "map_of md ''merged_list'' =
           (if sequence_documents (take n listing) = [] then None
            else Some (JList (concat (sequence_documents (take n listing)))))"
    by simp
  moreover have "map_of (dict_update acc d) ''merged_list'' = Some v"
    using assms(3,4) by (simp add: map_of_dict_update map_of_rev_distinct)
  ultimately show ?thesis by simp
qed

text \<open>
  The amended claim at \<^verbatim>\<open>a.json = [1]\<close>, \<^verbatim>\<open>m.json = {"k": 0}\<close>, \<^verbatim>\<open>b.json = [2, 3]\<close>, after
  all three entries; and at the mapping \<^verbatim>\<open>{"merged_list": "x"}\<close> met with the
  accumulator \<^verbatim>\<open>{"merged_list": [1]}\<close>.
\<close>

theorem reserved_key_collects_sequences_witness:
  "\<not> list_ex (\<lambda>e. is_candidate e \<and> binds_reserved_key (node e))
       [\<lparr>name = ''a.json'', node = File (Json (JList [JInt 1]))\<rparr>,
        \<lparr>name = ''m.json'', node = File (Json (JDict [(''k'', JInt 0)]))\<rparr>,
        \<lparr>name = ''b.json'', node = File (Json (JList [JInt 2, JInt 3]))\<rparr>]
   \<and> merge_loop (take 3
       [\<lparr>name = ''a.json'', node = File (Json (JList [JInt 1]))\<rparr>,
        \<lparr>name = ''m.json'', node = File (Json (JDict [(''k'', JInt 0)]))\<rparr>,
        \<lparr>name = ''b.json'', node = File (Json (JList [JInt 2, JInt 3]))\<rparr>]) [] []
     = Inr ([(''merged_list'', JList [JInt 1, JInt 2, JInt 3]), (''k'', JInt 0)], [])
   \<and> map_of [(''merged_list'', JList [JInt 1, JInt 2, JInt 3]), (''k'', JInt 0)] ''merged_list''
     = Some (JList (concat (sequence_documents (take 3
       [\<lparr>name = ''a.json'', node = File (Json (JList [JInt 1]))\<rparr>,
        \<lparr>name = ''m.json'', node = File (Json (JDict [(''k'', JInt 0)]))\<rparr>,
        \<lparr>name = ''b.json'', node = File (Json (JList [JInt 2, JInt 3]))\<rparr>]))))
   \<and> map_of (dict_update [(''merged_list'', JList [JInt 1])] [(''merged_list'', JStr ''x'')])
         ''merged_list'' = Some (JStr ''x'')"
proof -
  let ?L = "[\<lparr>name = ''a.json'', node = File (Json (JList [JInt 1]))\<rparr>,
        \<lparr>name = ''m.json'', node = File (Json (JDict [(''k'', JInt 0)]))\<rparr>,
        \<lparr>name = ''b.json'', node = File (Json (JList [JInt 2, JInt 3]))\<rparr>]"
  have h1: "\<not> list_ex (\<lambda>e. is_candidate e \<and> binds_reserved_key (node e)) ?L"
    by simp
  have h2: "merge_loop (take 3 ?L) [] []
     = Inr ([(''merged_list'', JList [JInt 1, JInt 2, JInt 3]), (''k'', JInt 0)], [])"
    by (simp add: endswith_def dict_update_def extend_merged_list_def setdefault_def)
  have h3: "distinct (map fst [(''merged_list'', JStr ''x'')])" by simp
  have h4: "map_of [(''merged_list'', JStr ''x'')] ''merged_list'' = Some (JStr ''x'')"
    by simp
  have s: "sequence_documents (take 3 ?L) = [[JInt 1], [JInt 2, JInt 3]]"
    by (simp add: sequence_documents_def is_candidate_def endswith_def)
  have ne: "sequence_documents (take 3 ?L) \<noteq> []"
    unfolding s by simp
  note t = reserved_key_collects_sequences
      [OF h1 h2 h3 h4, of "[(''merged_list'', JList [JInt 1])]"]
  from t have "map_of [(''merged_list'', JList [JInt 1, JInt 2, JInt 3]), (''k'', JInt 0)]
        ''merged_list''
      = (if sequence_documents (take 3 ?L) = [] then None
         else Some (JList (concat (sequence_documents (take 3 ?L)))))"
    by (rule conjunct1)
  with ne have c1: "map_of [(''merged_list'', JList [JInt 1, JInt 2, JInt 3]), (''k'', JInt 0)]
        ''merged_list''
      = Some (JList (concat (sequence_documents (take 3 ?L))))"
    by (simp only: if_False)
  from t have c2: "map_of (dict_update [(''merged_list'', JList [JInt 1])]
        [(''merged_list'', JStr ''x'')]) ''merged_list'' = Some (JStr ''x'')"
    by (rule conjunct2 [THEN conjunct2])
  show ?thesis using h1 h2 c1 c2 by blast
qed

end
